theory Spec2Isabelle
  imports Main "HOL-Library.Word"
begin

section \<open>Span attributes (go.opentelemetry.io/otel/attribute)\<close>

text \<open>
  An attribute value carries its type tag and its payload; \<open>INVALID\<close> is the tag
  of the zero value. Integers are 64-bit two's complement words (read with
  \<open>sint\<close>); a 64-bit float is kept as its IEEE-754 bit pattern, a 32-bit float
  likewise.
\<close>

type_synonym float64 = "64 word"
type_synonym float32 = "32 word"

datatype Value = INVALID | BOOL bool | INT64 "64 word" | FLOAT64 float64 | STRING string

datatype KeyValue = KeyValue (Key: string) (Value: Value)

definition attribute_Bool :: "string \<Rightarrow> bool \<Rightarrow> KeyValue" where
  "attribute_Bool k v = KeyValue k (BOOL v)"

definition attribute_Int64 :: "string \<Rightarrow> 64 word \<Rightarrow> KeyValue" where
  "attribute_Int64 k v = KeyValue k (INT64 v)"

text \<open>
  \<open>attribute.Int\<close> takes a platform-native \<open>int\<close> (a word of the platform's
  width \<open>'w\<close>, 32 or 64 bits) and stores \<open>int64(v)\<close>: the sign extension.
\<close>

definition attribute_Int :: "string \<Rightarrow> 'w::len word \<Rightarrow> KeyValue" where
  "attribute_Int k v = KeyValue k (INT64 (scast v))"

definition attribute_Float64 :: "string \<Rightarrow> float64 \<Rightarrow> KeyValue" where
  "attribute_Float64 k v = KeyValue k (FLOAT64 v)"

definition attribute_String :: "string \<Rightarrow> string \<Rightarrow> KeyValue" where
  "attribute_String k v = KeyValue k (STRING v)"

section \<open>CreateSpanAttribute\<close>

text \<open>
  The dynamic value \<open>v interface{}\<close>: one constructor per dynamic type the type
  switch names, then some of the types it does not name. The type parameter \<open>'i\<close>
  is the representation of the platform-native \<open>int\<close> and \<open>uint\<close>; the
  functions below use it at \<open>'w word\<close>. A word holds the bits; the constructor says
  whether they are read signed or unsigned. \<open>VOther d\<close> is a value of any further
  type, \<open>d\<close> describing it.
\<close>

datatype 'i go_value =
    VString string
  | VBool bool
  | VInt64 "64 word"
  | VInt32 "32 word"
  | VInt 'i
  | VFloat64 float64
  | VFloat32 float32
  | VUint 'i
  | VUint64 "64 word"
  | VUint32 "32 word"
  | VInt8 "8 word"
  | VInt16 "16 word"
  | VUint8 "8 word"
  | VUint16 "16 word"
  | VNil
  | VOther string

text \<open>
  The type switch of \<open>CreateSpanAttribute\<close>: \<open>Some kv\<close> where a case returns
  \<open>kv\<close>, \<open>None\<close> where control leaves the switch without returning. Go's
  cases do not fall through to the next case, so the empty \<open>case string:\<close> leaves
  the switch, as a value of a type with no case does. The conversions are Go's:
  \<open>int(x)\<close> of an \<open>int32\<close> sign-extends, of a \<open>uint32\<close> zero-extends (or
  keeps the bits on a 32-bit platform), of a \<open>uint\<close> and \<open>int64(x)\<close> of a
  \<open>uint64\<close> keep the bits. \<open>float64(x)\<close> of a \<open>float32\<close> is the
  parameter \<open>f64\<close>.
\<close>

definition type_switch ::
  "(float32 \<Rightarrow> float64) \<Rightarrow> string \<Rightarrow> ('w::len word) go_value \<Rightarrow> KeyValue option" where
  "type_switch f64 k v =
     (case v of
        VString x \<Rightarrow> None
      | VBool x \<Rightarrow> Some (attribute_Bool k x)
      | VInt64 x \<Rightarrow> Some (attribute_Int64 k x)
      | VInt32 x \<Rightarrow> Some (attribute_Int k (scast x :: 'w word))
      | VInt x \<Rightarrow> Some (attribute_Int k x)
      | VFloat64 x \<Rightarrow> Some (attribute_Float64 k x)
      | VFloat32 x \<Rightarrow> Some (attribute_Float64 k (f64 x))
      | VUint x \<Rightarrow> Some (attribute_Int k x)
      | VUint64 x \<Rightarrow> Some (attribute_Int64 k x)
      | VUint32 x \<Rightarrow> Some (attribute_Int k (ucast x :: 'w word))
      | _ \<Rightarrow> None)"

text \<open>
  The operand of the verb \<open>%s\<close>: a string prints as itself; what \<open>fmt\<close>
  prints for an operand of another type is the parameter \<open>sfmt\<close>.
\<close>

definition verb_s :: "('i go_value \<Rightarrow> string) \<Rightarrow> 'i go_value \<Rightarrow> string" where
  "verb_s sfmt v = (case v of VString s \<Rightarrow> s | _ \<Rightarrow> sfmt v)"

definition Sprintf_couldnt_convert :: "('i go_value \<Rightarrow> string) \<Rightarrow> 'i go_value \<Rightarrow> string" where
  "Sprintf_couldnt_convert sfmt v = ''couldn't convert '' @ verb_s sfmt v @ '' into KeyValue''"

definition CreateSpanAttribute ::
  "(('w::len word) go_value \<Rightarrow> string) \<Rightarrow> (float32 \<Rightarrow> float64) \<Rightarrow> string \<Rightarrow>
     ('w word) go_value \<Rightarrow> KeyValue" where
  "CreateSpanAttribute sfmt f64 k v =
     (case type_switch f64 k v of
        Some kv \<Rightarrow> kv
      | None \<Rightarrow> attribute_String ''attribute.error'' (Sprintf_couldnt_convert sfmt v))"

text \<open>The dynamic types the type switch names in a case.\<close>

fun has_case :: "'i go_value \<Rightarrow> bool" where
  "has_case (VString x) = True"
| "has_case (VBool x) = True"
| "has_case (VInt64 x) = True"
| "has_case (VInt32 x) = True"
| "has_case (VInt x) = True"
| "has_case (VFloat64 x) = True"
| "has_case (VFloat32 x) = True"
| "has_case (VUint x) = True"
| "has_case (VUint64 x) = True"
| "has_case (VUint32 x) = True"
| "has_case v = False"

section \<open>The tracing API (go.opentelemetry.io/otel/trace, codes)\<close>

datatype SpanKind =
    SpanKindUnspecified | SpanKindInternal | SpanKindServer | SpanKindClient
  | SpanKindProducer | SpanKindConsumer

datatype SpanStartOption = WithSpanKind SpanKind | WithAttributes "KeyValue list" | WithNewRoot

datatype Code = codes_Unset | codes_Error | codes_Ok

text \<open>
  A tracer handle: the global tracer of a name (\<open>otel.Tracer(name)\<close>) or one the
  caller made. A span value (a non-nil \<open>trace.Span\<close>): the API's span that performs
  no operations, or a span a tracer started, by its number.
\<close>

datatype Tracer = otel_Tracer string | UserTracer nat

datatype Span = noopSpan | Span nat

text \<open>
  A \<open>context.Context\<close> is the chain of values it was built from:
  \<open>context.Background()\<close>, \<open>trace.ContextWithSpan(ctx, span)\<close> and
  \<open>context.WithValue(ctx, key, val)\<close> for any other key.
\<close>

datatype Context =
    Background
  | ContextWithSpan Context Span
  | WithValue Context string string

text \<open>
  \<open>trace.SpanFromContext\<close>, of the tracing API: it returns the current span of the
  context and, in its documentation's words, "if no Span is currently set in ctx an
  implementation of a Span that performs no operations is returned". The result is a
  Go interface value, modelled as an option with \<open>None\<close> for \<open>nil\<close>, so that the
  caller's comparison with \<open>nil\<close> can be written as the code has it.
\<close>

fun SpanFromContext :: "Context \<Rightarrow> Span option" where
  "SpanFromContext Background = Some noopSpan"
| "SpanFromContext (ContextWithSpan ctx span) = Some span"
| "SpanFromContext (WithValue ctx k v) = SpanFromContext ctx"

text \<open>
  Attribute lists are Go slices: a header (first cell, length, capacity) over cells of
  a memory of attribute cells. \<open>brk\<close> is the first cell no array was allocated at.
  What the tracing API is asked to do is recorded in \<open>events\<close>, in order: a span
  started by a tracer (with the name, the start options and the parent context it was
  given), and each method called on a span.
\<close>

record slice =
  slice_ptr :: nat
  slice_len :: nat
  slice_cap :: nat

datatype span_method = SetAttributes "KeyValue list" | SetStatus Code string | End

datatype event =
    Started Span Tracer string "SpanStartOption list" Context
  | Called Span span_method

record world =
  mem :: "nat \<Rightarrow> KeyValue"
  brk :: nat
  next_span :: nat
  events :: "event list"

definition elements :: "slice \<Rightarrow> world \<Rightarrow> KeyValue list" where
  "elements s w = map (mem w) [slice_ptr s ..< slice_ptr s + slice_len s]"

text \<open>The zero value of \<open>attribute.KeyValue\<close>, which fills a fresh array.\<close>

definition zero_KeyValue :: KeyValue where
  "zero_KeyValue = KeyValue [] INVALID"

text \<open>
  \<open>append(s, x)\<close> with one element. With spare capacity the element is written into
  the array the slice shares, right after its last element, and the header grows by
  one. Without, a fresh array is allocated at \<open>brk\<close>, the elements are copied, the new
  one follows and the rest is zeroed. The capacity of the fresh array is the Go
  runtime's choice: the parameter \<open>growslice\<close>, given the old capacity and the length
  needed.
\<close>

definition append1 :: "(nat \<Rightarrow> nat \<Rightarrow> nat) \<Rightarrow> slice \<Rightarrow> KeyValue \<Rightarrow> world \<Rightarrow> slice \<times> world" where
  "append1 growslice s x w =
     (if slice_len s < slice_cap s
      then (s\<lparr>slice_len := slice_len s + 1\<rparr>,
            w\<lparr>mem := (mem w)(slice_ptr s + slice_len s := x)\<rparr>)
      else
        let n = growslice (slice_cap s) (slice_len s + 1);
            p = brk w;
            fresh = (\<lambda>a. if p \<le> a \<and> a < p + slice_len s then mem w (slice_ptr s + (a - p))
                        else if a = p + slice_len s then x
                        else if p \<le> a \<and> a < p + n then zero_KeyValue
                        else mem w a)
        in (\<lparr>slice_ptr = p, slice_len = slice_len s + 1, slice_cap = n\<rparr>,
            w\<lparr>mem := fresh, brk := p + n\<rparr>))"

text \<open>
  \<open>tracer.Start(ctx, name, opts...)\<close>: a new span, and the context that carries it.
\<close>

definition Start ::
  "Tracer \<Rightarrow> Context \<Rightarrow> string \<Rightarrow> SpanStartOption list \<Rightarrow> world \<Rightarrow> (Context \<times> Span) \<times> world" where
  "Start t ctx name opts w =
     (let span = Span (next_span w)
      in ((ContextWithSpan ctx span, span),
          w\<lparr>next_span := Suc (next_span w),
            events := events w @ [Started span t name opts ctx]\<rparr>))"

definition span_call :: "Span \<Rightarrow> span_method \<Rightarrow> world \<Rightarrow> world" where
  "span_call span m w = w\<lparr>events := events w @ [Called span m]\<rparr>"

section \<open>The ORM's scope (gorm.io/gorm)\<close>

text \<open>
  An error value: the sentinel \<open>gorm.ErrRecordNotFound\<close>, another error, or an error
  wrapping one (\<open>%w\<close>). \<open>errors.Is\<close> follows the chain of wrapped errors.
\<close>

datatype go_error = ErrRecordNotFound | OtherError string | WrapError string go_error

fun errors_Is :: "go_error \<Rightarrow> go_error \<Rightarrow> bool" where
  "errors_Is ErrRecordNotFound target = (ErrRecordNotFound = target)"
| "errors_Is (OtherError m) target = (OtherError m = target)"
| "errors_Is (WrapError m e) target = (WrapError m e = target \<or> errors_Is e target)"

text \<open>
  The values held in the scope's settings are \<open>interface{}\<close> values: a context, a
  span, nil, or a value of another type. The scope itself (\<open>*gorm.DB\<close>, as a callback
  receives it) has the settings, the statement's table and SQL text, and the error of
  the operation (\<open>None\<close> for \<open>nil\<close>).
\<close>

datatype iface = CtxValue Context | SpanValue Span | NilValue | OtherValue string

record gorm_DB =
  Statement_Settings :: "string \<rightharpoonup> iface"
  Statement_Table :: string
  Statement_SQL :: string
  DB_Error :: "go_error option"

definition scope_Get :: "gorm_DB \<Rightarrow> string \<Rightarrow> iface \<times> bool" where
  "scope_Get scope key =
     (case Statement_Settings scope key of None \<Rightarrow> (NilValue, False) | Some v \<Rightarrow> (v, True))"

definition scope_Set :: "gorm_DB \<Rightarrow> string \<Rightarrow> iface \<Rightarrow> gorm_DB" where
  "scope_Set scope key v = scope\<lparr>Statement_Settings := (Statement_Settings scope)(key \<mapsto> v)\<rparr>"

text \<open>
  The type assertions \<open>rctx.(context.Context)\<close> and \<open>rspan.(trace.Span)\<close> in their
  two-result form: the value and \<open>ok\<close>; on failure the zero value, nil.
\<close>

definition as_Context :: "iface \<Rightarrow> Context option \<times> bool" where
  "as_Context v = (case v of CtxValue ctx \<Rightarrow> (Some ctx, True) | _ \<Rightarrow> (None, False))"

definition as_Span :: "iface \<Rightarrow> Span option \<times> bool" where
  "as_Span v = (case v of SpanValue span \<Rightarrow> (Some span, True) | _ \<Rightarrow> (None, False))"

section \<open>callbacks.go\<close>

definition TableKey :: string where
  "TableKey = ''gorm.table''"

definition QueryKey :: string where
  "QueryKey = ''gorm.query''"

text \<open>\<open>Key.String(v)\<close>: the string attribute under the key.\<close>

definition Key_String :: "string \<Rightarrow> string \<Rightarrow> KeyValue" where
  "Key_String k v = KeyValue k (STRING v)"

record callbacks =
  allowRoot :: bool
  query :: bool
  table :: bool
  defaultAttributes :: slice
  tracer :: "Tracer option"
  spanOptions :: "SpanStartOption list"

definition contextScopeKey :: string where
  "contextScopeKey = ''_otContext''"

definition spanScopeKey :: string where
  "spanScopeKey = ''_otSpan''"

text \<open>
  The options. The interface \<open>Option\<close> has an unexported method and \<open>OptionFunc\<close>
  takes the unexported \<open>callbacks\<close>, so these six are all there are.
\<close>

datatype Option =
    WithSpanOptions "SpanStartOption list"
  | WithTracer "Tracer option"
  | AllowRoot bool
  | Query bool
  | Table bool
  | DefaultAttributes slice

fun apply_Option :: "Option \<Rightarrow> callbacks \<Rightarrow> callbacks" where
  "apply_Option (WithSpanOptions opts) c = c\<lparr>spanOptions := opts\<rparr>"
| "apply_Option (WithTracer t) c = c\<lparr>tracer := t\<rparr>"
| "apply_Option (AllowRoot a) c = c\<lparr>allowRoot := a\<rparr>"
| "apply_Option (Query q) c = c\<lparr>query := q\<rparr>"
| "apply_Option (Table t) c = c\<lparr>table := t\<rparr>"
| "apply_Option (DefaultAttributes d) c = c\<lparr>defaultAttributes := d\<rparr>"

text \<open>
  The eight methods registered as hooks, and a registration: the processor
  (\<open>Create()\<close>, \<open>Query()\<close>, ...), the hook it is placed before or after, the name it
  is registered under, and the method.
\<close>

datatype hook =
    beforeCreate | afterCreate | beforeQuery | afterQuery
  | beforeUpdate | afterUpdate | beforeDelete | afterDelete

datatype anchor = Before string | After string

type_synonym registration = "string \<times> anchor \<times> string \<times> hook"

text \<open>
  \<open>RegisterCallbacks\<close>: the settings start from the literal (every field zero but the
  empty attribute slice), the two default options come first, then the caller's, each
  applied in order. The result is the settings the registered methods are bound to,
  and the registrations added to the handle's.
\<close>

definition RegisterCallbacks :: "registration list \<Rightarrow> Option list \<Rightarrow> callbacks \<times> registration list" where
  "RegisterCallbacks db opts =
     (let c = \<lparr>allowRoot = False, query = False, table = False,
                defaultAttributes = \<lparr>slice_ptr = 0, slice_len = 0, slice_cap = 0\<rparr>,
                tracer = None, spanOptions = []\<rparr>;
          defaultOpts = [WithTracer (Some (otel_Tracer ''otgorm'')),
                         WithSpanOptions [WithSpanKind SpanKindInternal]];
          c = foldl (\<lambda>c opt. apply_Option opt c) c (defaultOpts @ opts)
      in (c, db @
            [(''create'', Before ''gorm:create'', ''before_create'', beforeCreate),
             (''create'', After ''gorm:create'', ''after_create'', afterCreate),
             (''query'', Before ''gorm:query'', ''before_query'', beforeQuery),
             (''query'', After ''gorm:query'', ''after_query'', afterQuery),
             (''update'', Before ''gorm:update'', ''before_update'', beforeUpdate),
             (''update'', After ''gorm:update'', ''after_update'', afterUpdate),
             (''delete'', Before ''gorm:delete'', ''before_delete'', beforeDelete),
             (''delete'', After ''gorm:delete'', ''after_delete'', afterDelete)]))"

text \<open>
  A call of a method on a nil interface value panics: \<open>c.tracer.Start\<close> when the
  tracer is nil.
\<close>

datatype panic = nil_dereference

text \<open>
  \<open>startTrace\<close>. The context parameter may be nil (\<open>None\<close>). The scope and the
  world are returned as the call leaves them.
\<close>

definition startTrace ::
  "callbacks \<Rightarrow> Context option \<Rightarrow> gorm_DB \<Rightarrow> string \<Rightarrow> world \<Rightarrow>
     panic + (Context \<times> gorm_DB \<times> world)" where
  "startTrace c ctx0 scope operation w =
     (let ctx = (case ctx0 of None \<Rightarrow> Background | Some x \<Rightarrow> x);
          parentSpan = SpanFromContext ctx
      in if parentSpan = None \<and> \<not> allowRoot c then Inr (ctx, scope, w)
         else
           (case tracer c of
              None \<Rightarrow> Inl nil_dereference
            | Some t \<Rightarrow>
                (case Start t ctx (''gorm:'' @ operation) (spanOptions c) w of
                   ((ctx', span), w') \<Rightarrow>
                     Inr (ctx', scope_Set scope spanScopeKey (SpanValue span), w'))))"

definition before :: "callbacks \<Rightarrow> gorm_DB \<Rightarrow> string \<Rightarrow> world \<Rightarrow> panic + (gorm_DB \<times> world)" where
  "before c scope operation w =
     (let rctx = fst (scope_Get scope contextScopeKey);
          (ctx, ok) = as_Context rctx;
          ctx = (if \<not> ok \<or> ctx = None then Some Background else ctx)
      in case startTrace c ctx scope operation w of
           Inl p \<Rightarrow> Inl p
         | Inr (ctx', scope', w') \<Rightarrow> Inr (scope_Set scope' contextScopeKey (CtxValue ctx'), w'))"

text \<open>
  \<open>endTrace\<close> reads the scope and never writes it; it returns the world. An
  assertion that succeeds yields a span, so the case \<open>None\<close> after \<open>ok\<close> is
  never reached. The status code and message are chosen as the code does, then passed
  to \<open>SetStatus\<close>.
\<close>

definition status_of :: "go_error \<Rightarrow> Code \<times> string" where
  "status_of err =
     (if errors_Is err ErrRecordNotFound then (codes_Error, ''not found'')
      else (codes_Unset, ''unknown''))"

definition endTrace :: "(nat \<Rightarrow> nat \<Rightarrow> nat) \<Rightarrow> callbacks \<Rightarrow> gorm_DB \<Rightarrow> world \<Rightarrow> world" where
  "endTrace growslice c scope w =
     (case scope_Get scope spanScopeKey of
        (rspan, ok) \<Rightarrow>
          if \<not> ok then w
          else
            (case as_Span rspan of
               (span, ok) \<Rightarrow>
                 if \<not> ok then w
                 else
                   (case span of
                      None \<Rightarrow> w
                    | Some span \<Rightarrow>
                        let attributes = defaultAttributes c;
                            (attributes, w) =
                              (if table c
                               then append1 growslice attributes
                                      (Key_String TableKey (Statement_Table scope)) w
                               else (attributes, w));
                            (attributes, w) =
                              (if query c
                               then append1 growslice attributes
                                      (Key_String QueryKey (Statement_SQL scope)) w
                               else (attributes, w));
                            w = span_call span (SetAttributes (elements attributes w)) w;
                            w = (case DB_Error scope of
                                   None \<Rightarrow> w
                                 | Some err \<Rightarrow>
                                     (case status_of err of
                                        (code, message) \<Rightarrow>
                                          span_call span (SetStatus code message) w))
                        in span_call span End w)))"

definition after :: "(nat \<Rightarrow> nat \<Rightarrow> nat) \<Rightarrow> callbacks \<Rightarrow> gorm_DB \<Rightarrow> world \<Rightarrow> world" where
  "after growslice c scope w = endTrace growslice c scope w"

text \<open>
  The eight hooks, by name. An "after" hook leaves the scope as it found it.
\<close>

definition invoke ::
  "(nat \<Rightarrow> nat \<Rightarrow> nat) \<Rightarrow> callbacks \<Rightarrow> hook \<Rightarrow> gorm_DB \<Rightarrow> world \<Rightarrow> panic + (gorm_DB \<times> world)" where
  "invoke growslice c h scope w =
     (case h of
        beforeCreate \<Rightarrow> before c scope ''create'' w
      | afterCreate \<Rightarrow> Inr (scope, after growslice c scope w)
      | beforeQuery \<Rightarrow> before c scope ''query'' w
      | afterQuery \<Rightarrow> Inr (scope, after growslice c scope w)
      | beforeUpdate \<Rightarrow> before c scope ''update'' w
      | afterUpdate \<Rightarrow> Inr (scope, after growslice c scope w)
      | beforeDelete \<Rightarrow> before c scope ''delete'' w
      | afterDelete \<Rightarrow> Inr (scope, after growslice c scope w))"

text \<open>
  A handle in use: the settings its hooks are bound to, the scopes of its operations
  (by number) and the world. \<open>run\<close> makes a sequence of hook calls, each on the scope
  of one operation, and stops at the first panic; it returns the state reached.
\<close>

record system =
  settings :: callbacks
  scopes :: "nat \<Rightarrow> gorm_DB"
  wld :: world

fun run :: "(nat \<Rightarrow> nat \<Rightarrow> nat) \<Rightarrow> (hook \<times> nat) list \<Rightarrow> system \<Rightarrow> system \<times> panic option" where
  "run growslice [] s = (s, None)"
| "run growslice ((h, i) # calls) s =
     (case invoke growslice (settings s) h (scopes s i) (wld s) of
        Inl p \<Rightarrow> (s, Some p)
      | Inr (scope, w) \<Rightarrow> run growslice calls (s\<lparr>scopes := (scopes s)(i := scope), wld := w\<rparr>))"

section \<open>The specification's words\<close>

subsection \<open>Options\<close>

text \<open>
  "Each field reflects the last Option in the sequence that touched it; unspecified
  fields retain built-in defaults": \<open>touch\<close> says what value an option gives the
  field, if any.
\<close>

definition last_touch :: "(Option \<Rightarrow> 'a option) \<Rightarrow> 'a \<Rightarrow> Option list \<Rightarrow> 'a" where
  "last_touch touch dflt opts =
     (case List.map_filter touch opts of [] \<Rightarrow> dflt | v # vs \<Rightarrow> last (v # vs))"

fun touch_allowRoot :: "Option \<Rightarrow> bool option" where
  "touch_allowRoot (AllowRoot a) = Some a"
| "touch_allowRoot opt = None"

fun touch_query :: "Option \<Rightarrow> bool option" where
  "touch_query (Query q) = Some q"
| "touch_query opt = None"

fun touch_table :: "Option \<Rightarrow> bool option" where
  "touch_table (Table t) = Some t"
| "touch_table opt = None"

fun touch_defaultAttributes :: "Option \<Rightarrow> slice option" where
  "touch_defaultAttributes (DefaultAttributes d) = Some d"
| "touch_defaultAttributes opt = None"

fun touch_tracer :: "Option \<Rightarrow> Tracer option option" where
  "touch_tracer (WithTracer t) = Some t"
| "touch_tracer opt = None"

fun touch_spanOptions :: "Option \<Rightarrow> SpanStartOption list option" where
  "touch_spanOptions (WithSpanOptions opts) = Some opts"
| "touch_spanOptions opt = None"

subsection \<open>Calls on a span\<close>

text \<open>The calls of one kind made on a span, read off the events.\<close>

fun attribute_calls :: "Span \<Rightarrow> event list \<Rightarrow> KeyValue list list" where
  "attribute_calls span [] = []"
| "attribute_calls span (Called sp (SetAttributes kvs) # es) =
     (if sp = span then kvs # attribute_calls span es else attribute_calls span es)"
| "attribute_calls span (e # es) = attribute_calls span es"

fun status_calls :: "Span \<Rightarrow> event list \<Rightarrow> (Code \<times> string) list" where
  "status_calls span [] = []"
| "status_calls span (Called sp (SetStatus code message) # es) =
     (if sp = span then (code, message) # status_calls span es else status_calls span es)"
| "status_calls span (e # es) = status_calls span es"

fun End_calls :: "Span \<Rightarrow> event list \<Rightarrow> nat" where
  "End_calls span [] = 0"
| "End_calls span (Called sp End # es) =
     (if sp = span then Suc (End_calls span es) else End_calls span es)"
| "End_calls span (e # es) = End_calls span es"

subsection \<open>The scope and the attributes\<close>

text \<open>
  "A span is found in scope state": the value under the span key is a span.
\<close>

definition span_in_scope :: "gorm_DB \<Rightarrow> Span option" where
  "span_in_scope scope =
     (case Statement_Settings scope spanScopeKey of Some (SpanValue span) \<Rightarrow> Some span | _ \<Rightarrow> None)"

text \<open>
  "The context retrieved in the before hook": the context the scope holds under the
  context key, or the background context when it holds none there.
\<close>

definition scope_context :: "gorm_DB \<Rightarrow> Context" where
  "scope_context scope =
     (case Statement_Settings scope contextScopeKey of Some (CtxValue ctx) \<Rightarrow> ctx | _ \<Rightarrow> Background)"

text \<open>
  "If table-recording is enabled, an attribute with key \<open>gorm.table\<close> whose value is
  the operation's table name", and likewise \<open>gorm.query\<close> with the statement's text.
\<close>

definition table_attribute :: "callbacks \<Rightarrow> gorm_DB \<Rightarrow> KeyValue list" where
  "table_attribute c scope =
     (if table c then [KeyValue ''gorm.table'' (STRING (Statement_Table scope))] else [])"

definition query_attribute :: "callbacks \<Rightarrow> gorm_DB \<Rightarrow> KeyValue list" where
  "query_attribute c scope =
     (if query c then [KeyValue ''gorm.query'' (STRING (Statement_SQL scope))] else [])"

text \<open>The \<open>SetStatus\<close> call an operation's error leads to, if any, as an event.\<close>

definition status_events :: "Span \<Rightarrow> gorm_DB \<Rightarrow> event list" where
  "status_events span scope =
     (case DB_Error scope of
        None \<Rightarrow> []
      | Some err \<Rightarrow> [Called span (SetStatus (fst (status_of err)) (snd (status_of err)))])"

section \<open>Concrete inputs\<close>

text \<open>
  A growth policy, an empty world, the scope of an operation on the table
  \<open>users\<close> with nothing stored in it yet, settings with every recording switched
  on and one default attribute in an array of capacity three, and a handle in use
  with these.
\<close>

definition ex_growslice :: "nat \<Rightarrow> nat \<Rightarrow> nat" where
  "ex_growslice old needed = max needed (2 * old)"

definition ex_world :: world where
  "ex_world = \<lparr>mem = (\<lambda>a. zero_KeyValue), brk = 0, next_span = 0, events = []\<rparr>"

definition ex_scope :: gorm_DB where
  "ex_scope = \<lparr>Statement_Settings = Map.empty, Statement_Table = ''users'',
                Statement_SQL = ''SELECT * FROM users'', DB_Error = None\<rparr>"

definition ex_settings :: callbacks where
  "ex_settings =
     \<lparr>allowRoot = True, query = True, table = True,
      defaultAttributes = \<lparr>slice_ptr = 0, slice_len = 1, slice_cap = 3\<rparr>,
      tracer = Some (otel_Tracer ''otgorm''), spanOptions = [WithSpanKind SpanKindInternal]\<rparr>"

definition ex_system :: system where
  "ex_system =
     \<lparr>settings = ex_settings, scopes = (\<lambda>i. ex_scope),
      wld = \<lparr>mem = (\<lambda>a. zero_KeyValue)(0 := KeyValue ''env'' (STRING ''prod'')),
              brk = 3, next_span = 0, events = []\<rparr>\<rparr>"

section \<open>Properties of CreateSpanAttribute\<close>

subsection \<open>Integer conversions\<close>

lemma sint_eq_uint_small:
  fixes x :: "'a::len word"
  assumes "uint x < 2 ^ (LENGTH('a) - 1)"
  shows "sint x = uint x"
proof -
  have "- (2 ^ (LENGTH('a) - 1)) \<le> uint x"
    by (rule order_trans [of _ 0]) simp_all
  with assms show ?thesis
    by (simp add: sint_uint signed_take_bit_int_eq_self)
qed

lemma sint_int64_of_int:
  fixes x :: "'w::len word"
  assumes "LENGTH('w) \<le> 64"
  shows "sint (scast x :: 64 word) = sint x"
  using assms by (simp add: sint_up_scast is_up)

lemma sint_int_of_int32:
  fixes x :: "32 word"
  assumes "32 \<le> LENGTH('w::len)"
  shows "sint (scast x :: 'w word) = sint x"
  using assms by (simp add: sint_up_scast is_up)

lemma uint_int_of_uint32:
  fixes x :: "32 word"
  assumes "32 \<le> LENGTH('w::len)"
  shows "uint (ucast x :: 'w word) = uint x"
  using assms by (simp add: uint_up_ucast is_up)

lemma sint_int_of_uint32:
  fixes x :: "32 word"
  assumes w: "32 \<le> LENGTH('w::len)" and fits: "32 < LENGTH('w) \<or> uint x < 2 ^ 31"
  shows "sint (ucast x :: 'w word) = uint x"
proof -
  have "uint x < 2 ^ (LENGTH('w) - 1)"
  proof (cases "32 < LENGTH('w)")
    case True
    have "uint x < 2 ^ 32"
      using uint_bounded [of x] by simp
    also have "(2::int) ^ 32 \<le> 2 ^ (LENGTH('w) - 1)"
      using True by (intro power_increasing) simp_all
    finally show ?thesis .
  next
    case False
    with fits have "uint x < 2 ^ 31" by simp
    also have "(2::int) ^ 31 \<le> 2 ^ (LENGTH('w) - 1)"
      using w by (intro power_increasing) simp_all
    finally show ?thesis .
  qed
  then have "uint (ucast x :: 'w word) < 2 ^ (LENGTH('w) - 1)"
    using w by (simp add: uint_int_of_uint32)
  then have "sint (ucast x :: 'w word) = uint (ucast x :: 'w word)"
    by (rule sint_eq_uint_small)
  then show ?thesis
    using w by (simp add: uint_int_of_uint32)
qed

lemmas CreateSpanAttribute_defs =
  CreateSpanAttribute_def type_switch_def attribute_Bool_def attribute_Int64_def
  attribute_Int_def attribute_Float64_def attribute_String_def
  Sprintf_couldnt_convert_def verb_s_def

lemma CreateSpanAttribute_VInt32:
  fixes sfmt :: "('w::len word) go_value \<Rightarrow> string"
  assumes "32 \<le> LENGTH('w)" and "LENGTH('w) \<le> 64"
  shows "\<exists>n. CreateSpanAttribute sfmt f64 k (VInt32 x) = KeyValue k (INT64 n) \<and> sint n = sint x"
proof -
  have "sint (scast (scast x :: 'w word) :: 64 word) = sint x"
    using assms by (simp add: sint_int64_of_int sint_int_of_int32)
  then show ?thesis
    by (simp add: CreateSpanAttribute_defs)
qed

lemma CreateSpanAttribute_VInt:
  fixes sfmt :: "('w::len word) go_value \<Rightarrow> string"
  assumes "LENGTH('w) \<le> 64"
  shows "\<exists>n. CreateSpanAttribute sfmt f64 k (VInt x) = KeyValue k (INT64 n) \<and> sint n = sint x"
  using assms by (simp add: CreateSpanAttribute_defs sint_int64_of_int)

lemma CreateSpanAttribute_VUint:
  fixes sfmt :: "('w::len word) go_value \<Rightarrow> string"
  assumes "LENGTH('w) \<le> 64"
  shows "\<exists>n. CreateSpanAttribute sfmt f64 k (VUint x) = KeyValue k (INT64 n) \<and>
           (uint x < 2 ^ (LENGTH('w) - 1) \<longrightarrow> sint n = uint x)"
  using assms by (simp add: CreateSpanAttribute_defs sint_int64_of_int sint_eq_uint_small)

lemma CreateSpanAttribute_VUint64:
  fixes sfmt :: "('w::len word) go_value \<Rightarrow> string"
  shows "\<exists>n. CreateSpanAttribute sfmt f64 k (VUint64 x) = KeyValue k (INT64 n) \<and>
           (uint x < 2 ^ 63 \<longrightarrow> sint n = uint x)"
  using sint_eq_uint_small [of x] by (simp add: CreateSpanAttribute_defs)

lemma CreateSpanAttribute_VUint32:
  fixes sfmt :: "('w::len word) go_value \<Rightarrow> string"
  assumes "32 \<le> LENGTH('w)" and "LENGTH('w) \<le> 64"
  shows "\<exists>n. CreateSpanAttribute sfmt f64 k (VUint32 x) = KeyValue k (INT64 n) \<and>
           (32 < LENGTH('w) \<or> uint x < 2 ^ 31 \<longrightarrow> sint n = uint x)"
proof -
  have "sint (scast (ucast x :: 'w word) :: 64 word) = uint x"
    if "32 < LENGTH('w) \<or> uint x < 2 ^ 31"
    using that assms by (simp add: sint_int64_of_int sint_int_of_uint32)
  then show ?thesis
    by (simp add: CreateSpanAttribute_defs)
qed

text \<open>
  Claim C4. On a platform whose \<open>int\<close> has 32 to 64 bits, every value of a type
  the switch converts yields an attribute under the given key whose type is the
  value's: a bool a BOOL; each of int64, int32, int, uint, uint64 and uint32 an INT64;
  a float64 a FLOAT64 with the same bits, a float32 the FLOAT64 of its widening. The
  signed types keep their numeric value always; an unsigned value is kept whenever
  the signed target can hold it (a uint below \<open>2 ^ (w - 1)\<close>, a uint64 below
  \<open>2 ^ 63\<close>, a uint32 always when \<open>int\<close> is wider than 32 bits and below
  \<open>2 ^ 31\<close> otherwise).
\<close>

theorem CreateSpanAttribute_supported:
  fixes sfmt :: "('w::len word) go_value \<Rightarrow> string" and xi xu :: "'w word"
  assumes "32 \<le> LENGTH('w)" and "LENGTH('w) \<le> 64"
  shows "CreateSpanAttribute sfmt f64 k (VBool b) = KeyValue k (BOOL b)
    \<and> (\<exists>n. CreateSpanAttribute sfmt f64 k (VInt64 x64) = KeyValue k (INT64 n) \<and> sint n = sint x64)
    \<and> (\<exists>n. CreateSpanAttribute sfmt f64 k (VInt32 x32) = KeyValue k (INT64 n) \<and> sint n = sint x32)
    \<and> (\<exists>n. CreateSpanAttribute sfmt f64 k (VInt xi) = KeyValue k (INT64 n) \<and> sint n = sint xi)
    \<and> (\<exists>n. CreateSpanAttribute sfmt f64 k (VUint xu) = KeyValue k (INT64 n) \<and>
           (uint xu < 2 ^ (LENGTH('w) - 1) \<longrightarrow> sint n = uint xu))
    \<and> (\<exists>n. CreateSpanAttribute sfmt f64 k (VUint64 u64) = KeyValue k (INT64 n) \<and>
           (uint u64 < 2 ^ 63 \<longrightarrow> sint n = uint u64))
    \<and> (\<exists>n. CreateSpanAttribute sfmt f64 k (VUint32 u32) = KeyValue k (INT64 n) \<and>
           (32 < LENGTH('w) \<or> uint u32 < 2 ^ 31 \<longrightarrow> sint n = uint u32))
    \<and> CreateSpanAttribute sfmt f64 k (VFloat64 d) = KeyValue k (FLOAT64 d)
    \<and> CreateSpanAttribute sfmt f64 k (VFloat32 f) = KeyValue k (FLOAT64 (f64 f))"
proof (intro conjI)
  show "CreateSpanAttribute sfmt f64 k (VBool b) = KeyValue k (BOOL b)"
    by (simp add: CreateSpanAttribute_defs)
  show "\<exists>n. CreateSpanAttribute sfmt f64 k (VInt64 x64) = KeyValue k (INT64 n) \<and> sint n = sint x64"
    by (simp add: CreateSpanAttribute_defs)
  show "\<exists>n. CreateSpanAttribute sfmt f64 k (VInt32 x32) = KeyValue k (INT64 n) \<and> sint n = sint x32"
    using assms by (rule CreateSpanAttribute_VInt32)
  show "\<exists>n. CreateSpanAttribute sfmt f64 k (VInt xi) = KeyValue k (INT64 n) \<and> sint n = sint xi"
    using assms(2) by (rule CreateSpanAttribute_VInt)
  show "\<exists>n. CreateSpanAttribute sfmt f64 k (VUint xu) = KeyValue k (INT64 n) \<and>
           (uint xu < 2 ^ (LENGTH('w) - 1) \<longrightarrow> sint n = uint xu)"
    using assms(2) by (rule CreateSpanAttribute_VUint)
  show "\<exists>n. CreateSpanAttribute sfmt f64 k (VUint64 u64) = KeyValue k (INT64 n) \<and>
           (uint u64 < 2 ^ 63 \<longrightarrow> sint n = uint u64)"
    by (rule CreateSpanAttribute_VUint64)
  show "\<exists>n. CreateSpanAttribute sfmt f64 k (VUint32 u32) = KeyValue k (INT64 n) \<and>
           (32 < LENGTH('w) \<or> uint u32 < 2 ^ 31 \<longrightarrow> sint n = uint u32)"
    using assms by (rule CreateSpanAttribute_VUint32)
  show "CreateSpanAttribute sfmt f64 k (VFloat64 d) = KeyValue k (FLOAT64 d)"
    by (simp add: CreateSpanAttribute_defs)
  show "CreateSpanAttribute sfmt f64 k (VFloat32 f) = KeyValue k (FLOAT64 (f64 f))"
    by (simp add: CreateSpanAttribute_defs)
qed

theorem CreateSpanAttribute_supported_witness:
  "(32::nat) \<le> LENGTH(64) \<and> LENGTH(64) \<le> (64::nat)
    \<and> CreateSpanAttribute (\<lambda>v. []) ucast ''n'' (VBool True :: 64 word go_value) = KeyValue ''n'' (BOOL True)
    \<and> (\<exists>n. CreateSpanAttribute (\<lambda>v. []) ucast ''n'' (VInt32 (- 7) :: 64 word go_value) = KeyValue ''n'' (INT64 n)
           \<and> sint n = - 7)
    \<and> uint (9 :: 64 word) < 2 ^ (LENGTH(64) - 1)
    \<and> (\<exists>n. CreateSpanAttribute (\<lambda>v. []) ucast ''n'' (VUint (9 :: 64 word)) = KeyValue ''n'' (INT64 n)
           \<and> sint n = 9)
    \<and> uint (5 :: 64 word) < 2 ^ 63
    \<and> (\<exists>n. CreateSpanAttribute (\<lambda>v. []) ucast ''n'' (VUint64 5 :: 64 word go_value) = KeyValue ''n'' (INT64 n)
           \<and> sint n = 5)
    \<and> (\<exists>n. CreateSpanAttribute (\<lambda>v. []) ucast ''n'' (VUint32 4294967295 :: 64 word go_value) = KeyValue ''n'' (INT64 n)
           \<and> sint n = 4294967295)"
proof -
  have w: "(32::nat) \<le> LENGTH(64)" "LENGTH(64) \<le> (64::nat)"
    by simp_all
  have fits: "uint (9 :: 64 word) < 2 ^ (LENGTH(64) - 1)" "uint (5 :: 64 word) < 2 ^ 63"
    by simp_all
  show ?thesis
    using w fits
      CreateSpanAttribute_supported [OF w, of "\<lambda>v. []" ucast "''n''" True 0 "- 7" 0 9 5 4294967295 0 0]
    by simp
qed

text \<open>
  Claim C2. For every string value the \<open>case string:\<close> returns nothing: the
  switch is left, and the result is the conversion-error attribute, whose message
  quotes the string. It is never the string attribute \<open>attribute.String(k, s)\<close>.
\<close>

theorem CreateSpanAttribute_string:
  "type_switch f64 k (VString s) = None
   \<and> CreateSpanAttribute sfmt f64 k (VString s) =
       KeyValue ''attribute.error'' (STRING (''couldn't convert '' @ s @ '' into KeyValue''))
   \<and> CreateSpanAttribute sfmt f64 k (VString s) \<noteq> attribute_String k s"
  by (simp add: CreateSpanAttribute_defs)

text \<open>
  Claim C5. A value of a type the switch has no case for yields the string attribute
  under the key \<open>attribute.error\<close> whose message is the fixed text around what
  \<open>%s\<close> prints for the value. \<open>CreateSpanAttribute\<close> is a total function
  with no error result: there is no input on which this path fails.
\<close>

theorem CreateSpanAttribute_unsupported:
  assumes "\<not> has_case v"
  shows "CreateSpanAttribute sfmt f64 k v =
           KeyValue ''attribute.error''
             (STRING (''couldn't convert '' @ sfmt v @ '' into KeyValue''))"
  using assms by (cases v) (simp_all add: CreateSpanAttribute_defs)

theorem CreateSpanAttribute_unsupported_witness:
  "\<not> has_case (VInt8 5 :: 64 word go_value)
   \<and> CreateSpanAttribute (\<lambda>v. ''%!s(int8=5)'') ucast ''n'' (VInt8 5 :: 64 word go_value) =
       KeyValue ''attribute.error'' (STRING ''couldn't convert %!s(int8=5) into KeyValue'')"
proof -
  have h: "\<not> has_case (VInt8 5 :: 64 word go_value)"
    by simp
  show ?thesis
    using h CreateSpanAttribute_unsupported [OF h, of "\<lambda>v. ''%!s(int8=5)''" ucast "''n''"]
    by simp
qed

section \<open>Properties of the hooks\<close>

subsection \<open>Slices\<close>

lemma events_append1 [simp]: "events (snd (append1 g s x w)) = events w"
  by (simp add: append1_def Let_def)

lemma next_span_append1 [simp]: "next_span (snd (append1 g s x w)) = next_span w"
  by (simp add: append1_def Let_def)

lemma brk_append1: "brk w \<le> brk (snd (append1 g s x w))"
  by (simp add: append1_def Let_def)

lemma elements_append1:
  "elements (fst (append1 g s x w)) (snd (append1 g s x w)) = elements s w @ [x]"
proof (cases "slice_len s < slice_cap s")
  case True
  then show ?thesis
    by (simp add: append1_def elements_def)
next
  case False
  then have "elements (fst (append1 g s x w)) (snd (append1 g s x w)) =
      map (\<lambda>a. if a < brk w + slice_len s then mem w (slice_ptr s + (a - brk w)) else x)
        [brk w ..< brk w + slice_len s + 1]"
    by (simp add: append1_def elements_def Let_def)
  also have "\<dots> = map (mem w) [slice_ptr s ..< slice_ptr s + slice_len s] @ [x]"
    by (rule nth_equalityI) (simp_all add: nth_append)
  finally show ?thesis
    by (simp add: elements_def)
qed

lemma mem_append1:
  assumes "a < brk w" and "a \<noteq> slice_ptr s + slice_len s"
  shows "mem (snd (append1 g s x w)) a = mem w a"
  using assms by (simp add: append1_def Let_def)

lemma end_append1:
  assumes "a < slice_ptr s + slice_len s" and "a < brk w"
  shows "a < slice_ptr (fst (append1 g s x w)) + slice_len (fst (append1 g s x w))"
  using assms by (simp add: append1_def Let_def)

subsection \<open>endTrace\<close>

lemma elements_append1':
  "append1 g s x w = (s', w') \<Longrightarrow> elements s' w' = elements s w @ [x]"
  using elements_append1 [of g s x w] by simp

lemma events_append1':
  "append1 g s x w = (s', w') \<Longrightarrow> events w' = events w"
  using events_append1 [of g s x w] by simp

lemma endTrace_no_span:
  assumes "span_in_scope scope = None"
  shows "endTrace g c scope w = w"
  using assms
  by (auto simp: endTrace_def span_in_scope_def scope_Get_def as_Span_def
      split: option.splits iface.splits)

lemma endTrace_events:
  assumes "span_in_scope scope = Some span"
  shows "events (endTrace g c scope w) =
           events w @
           Called span (SetAttributes
             (elements (defaultAttributes c) w @ table_attribute c scope @ query_attribute c scope))
           # status_events span scope @ [Called span End]"
proof -
  from assms have slot: "Statement_Settings scope spanScopeKey = Some (SpanValue span)"
    by (simp add: span_in_scope_def split: option.splits iface.splits)
  obtain s1 w1 where a1:
    "(if table c then append1 g (defaultAttributes c) (Key_String TableKey (Statement_Table scope)) w
      else (defaultAttributes c, w)) = (s1, w1)"
    by (cases "if table c then append1 g (defaultAttributes c) (Key_String TableKey (Statement_Table scope)) w
      else (defaultAttributes c, w)") 
  obtain s2 w2 where a2:
    "(if query c then append1 g s1 (Key_String QueryKey (Statement_SQL scope)) w1
      else (s1, w1)) = (s2, w2)"
    by (cases "if query c then append1 g s1 (Key_String QueryKey (Statement_SQL scope)) w1
      else (s1, w1)")
  have e1: "elements s1 w1 = elements (defaultAttributes c) w @ table_attribute c scope"
    and v1: "events w1 = events w"
    using a1 by (auto simp: table_attribute_def Key_String_def TableKey_def
        dest: elements_append1' events_append1' split: if_splits)
  have e2: "elements s2 w2 = elements s1 w1 @ query_attribute c scope"
    and v2: "events w2 = events w1"
    using a2 by (auto simp: query_attribute_def Key_String_def QueryKey_def
        dest: elements_append1' events_append1' split: if_splits)
  have "endTrace g c scope w =
          span_call span End
            (case DB_Error scope of
               None \<Rightarrow> span_call span (SetAttributes (elements s2 w2)) w2
             | Some err \<Rightarrow>
                 span_call span (SetStatus (fst (status_of err)) (snd (status_of err)))
                   (span_call span (SetAttributes (elements s2 w2)) w2))"
    using slot a1 a2
    by (simp add: endTrace_def scope_Get_def as_Span_def Let_def split: option.splits prod.splits)
  then show ?thesis
    by (simp add: span_call_def status_events_def e1 e2 v1 v2 split: option.splits)
qed

subsection \<open>Reading the events\<close>

lemma attribute_calls_append:
  "attribute_calls span (es @ fs) = attribute_calls span es @ attribute_calls span fs"
  by (induction span es rule: attribute_calls.induct) simp_all

lemma status_calls_append:
  "status_calls span (es @ fs) = status_calls span es @ status_calls span fs"
  by (induction span es rule: status_calls.induct) simp_all

lemma End_calls_append:
  "End_calls span (es @ fs) = End_calls span es + End_calls span fs"
  by (induction span es rule: End_calls.induct) simp_all

lemma calls_status_events:
  "attribute_calls sp (status_events span scope) = []"
  "End_calls sp (status_events span scope) = 0"
  by (simp_all add: status_events_def split: option.splits)

lemma status_calls_status_events:
  "status_calls span (status_events span scope) =
     (case DB_Error scope of None \<Rightarrow> [] | Some err \<Rightarrow> [status_of err])"
  by (simp add: status_events_def split: option.splits)

subsection \<open>before\<close>

lemma SpanFromContext_not_nil: "SpanFromContext ctx \<noteq> None"
  by (induction ctx) simp_all

lemma startTrace_starts:
  "startTrace c ctx0 scope operation w =
     (case tracer c of
        None \<Rightarrow> Inl nil_dereference
      | Some t \<Rightarrow>
          Inr (ContextWithSpan (case ctx0 of None \<Rightarrow> Background | Some x \<Rightarrow> x) (Span (next_span w)),
               scope_Set scope spanScopeKey (SpanValue (Span (next_span w))),
               w\<lparr>next_span := Suc (next_span w),
                 events := events w @
                   [Started (Span (next_span w)) t (''gorm:'' @ operation) (spanOptions c)
                      (case ctx0 of None \<Rightarrow> Background | Some x \<Rightarrow> x)]\<rparr>))"
  by (simp add: startTrace_def Start_def Let_def SpanFromContext_not_nil split: option.splits)

lemma before_Inr:
  assumes "before c scope operation w = Inr (scope', w')"
  shows "\<exists>t ctx. tracer c = Some t
     \<and> scope' = scope_Set (scope_Set scope spanScopeKey (SpanValue (Span (next_span w))))
                  contextScopeKey (CtxValue (ContextWithSpan ctx (Span (next_span w))))
     \<and> w' = w\<lparr>next_span := Suc (next_span w),
                events := events w @
                  [Started (Span (next_span w)) t (''gorm:'' @ operation) (spanOptions c) ctx]\<rparr>"
  using assms
  by (auto simp: before_def startTrace_starts Let_def split: option.splits prod.splits if_splits)

lemma before_Inl:
  "before c scope operation w = Inl p \<longleftrightarrow> tracer c = None \<and> p = nil_dereference"
  by (cases p) (auto simp: before_def startTrace_starts Let_def split: option.splits prod.splits if_splits)

lemma before_world:
  assumes "before c scope operation w = Inr (scope', w')"
  shows "mem w' = mem w" and "brk w' = brk w"
    and "End_calls sp (events w') = End_calls sp (events w)"
  using before_Inr [OF assms] by (auto simp: End_calls_append)

lemma before_span_in_scope:
  assumes "before c scope operation w = Inr (scope', w')"
  shows "span_in_scope scope' = Some (Span (next_span w))"
  using before_Inr [OF assms]
  by (auto simp: span_in_scope_def scope_Set_def spanScopeKey_def contextScopeKey_def)

subsection \<open>The memory endTrace leaves\<close>

lemma endTrace_brk: "brk w \<le> brk (endTrace g c scope w)"
proof (cases "span_in_scope scope")
  case None
  then show ?thesis by (simp add: endTrace_no_span)
next
  case (Some span)
  then have slot: "Statement_Settings scope spanScopeKey = Some (SpanValue span)"
    by (simp add: span_in_scope_def split: option.splits iface.splits)
  have b1: "brk w \<le> brk (snd (append1 g s x w))" for s x w
    by (rule brk_append1)
  have b2: "brk w \<le> brk (snd (append1 g s2 x2 (snd (append1 g s1 x1 w))))" for s1 x1 s2 x2
    by (rule order_trans [OF brk_append1 brk_append1])
  show ?thesis
    using slot b1 b2
    by (simp add: endTrace_def scope_Get_def as_Span_def Let_def span_call_def split_beta
        split: option.splits)
qed

lemma endTrace_mem:
  assumes "a < slice_ptr (defaultAttributes c) + slice_len (defaultAttributes c)"
    and "a < brk w"
  shows "mem (endTrace g c scope w) a = mem w a"
proof (cases "span_in_scope scope")
  case None
  then show ?thesis by (simp add: endTrace_no_span)
next
  case (Some span)
  then have slot: "Statement_Settings scope spanScopeKey = Some (SpanValue span)"
    by (simp add: span_in_scope_def split: option.splits iface.splits)
  let ?d = "defaultAttributes c"
  have m1: "mem (snd (append1 g ?d x w)) a = mem w a" for x
    using assms by (simp add: mem_append1)
  have m2: "mem (snd (append1 g (fst (append1 g ?d x1 w)) x2 (snd (append1 g ?d x1 w)))) a = mem w a"
    for x1 x2
  proof -
    have "a < slice_ptr (fst (append1 g ?d x1 w)) + slice_len (fst (append1 g ?d x1 w))"
      using assms by (rule end_append1)
    moreover have "a < brk (snd (append1 g ?d x1 w))"
      using assms(2) brk_append1 [of w g ?d x1] by simp
    ultimately have "mem (snd (append1 g (fst (append1 g ?d x1 w)) x2 (snd (append1 g ?d x1 w)))) a
        = mem (snd (append1 g ?d x1 w)) a"
      by (simp add: mem_append1)
    then show ?thesis by (simp add: m1)
  qed
  show ?thesis
    using slot m1 m2
    by (simp add: endTrace_def scope_Get_def as_Span_def Let_def span_call_def split_beta
        split: option.splits)
qed

lemma elements_cong:
  assumes "\<And>a. a < slice_ptr s + slice_len s \<Longrightarrow> mem w' a = mem w a"
  shows "elements s w' = elements s w"
  using assms by (simp add: elements_def)

lemma invoke_frame:
  assumes "invoke g c h scope w = Inr (scope', w')"
  shows "brk w \<le> brk w'"
    and "a < slice_ptr (defaultAttributes c) + slice_len (defaultAttributes c) \<Longrightarrow> a < brk w \<Longrightarrow>
           mem w' a = mem w a"
  using assms
  by (cases h; auto simp: invoke_def after_def endTrace_brk endTrace_mem dest: before_world)+

lemma run_frame:
  assumes "slice_ptr (defaultAttributes (settings s)) + slice_len (defaultAttributes (settings s))
             \<le> brk (wld s)"
  shows "settings (fst (run g calls s)) = settings s
    \<and> brk (wld s) \<le> brk (wld (fst (run g calls s)))
    \<and> (\<forall>a < slice_ptr (defaultAttributes (settings s)) + slice_len (defaultAttributes (settings s)).
          mem (wld (fst (run g calls s))) a = mem (wld s) a)"
  using assms
proof (induction calls arbitrary: s)
  case Nil
  then show ?case by simp
next
  case (Cons call calls)
  obtain h i where call: "call = (h, i)"
    by (cases call)
  show ?case
  proof (cases "invoke g (settings s) h (scopes s i) (wld s)")
    case (Inl p)
    with call show ?thesis by simp
  next
    case (Inr r)
    obtain scope w where r: "r = (scope, w)"
      by (cases r)
    let ?s = "s\<lparr>scopes := (scopes s)(i := scope), wld := w\<rparr>"
    let ?d = "defaultAttributes (settings s)"
    from Inr r have inv: "invoke g (settings s) h (scopes s i) (wld s) = Inr (scope, w)"
      by simp
    have brk: "brk (wld s) \<le> brk w"
      using inv by (rule invoke_frame)
    have mem: "mem w a = mem (wld s) a" if "a < slice_ptr ?d + slice_len ?d" for a
      using invoke_frame(2) [OF inv that] that Cons.prems by simp
    have "slice_ptr (defaultAttributes (settings ?s)) + slice_len (defaultAttributes (settings ?s))
            \<le> brk (wld ?s)"
      using Cons.prems brk by simp
    from Cons.IH [OF this] have
      "settings (fst (run g calls ?s)) = settings s"
      "brk w \<le> brk (wld (fst (run g calls ?s)))"
      "\<forall>a < slice_ptr ?d + slice_len ?d. mem (wld (fst (run g calls ?s))) a = mem w a"
      by simp_all
    moreover have "run g (call # calls) s = run g calls ?s"
      using call inv by simp
    ultimately show ?thesis
      using brk mem by simp
  qed
qed

subsection \<open>Options\<close>

lemma last_touch_Nil: "last_touch touch dflt [] = dflt"
  by (simp add: last_touch_def List.map_filter_simps)

lemma map_filter_snoc:
  "List.map_filter f (xs @ [x]) =
     List.map_filter f xs @ (case f x of None \<Rightarrow> [] | Some v \<Rightarrow> [v])"
  by (auto simp: List.map_filter_def split: option.splits)

lemma last_touch_if:
  "last_touch touch dflt opts =
     (if List.map_filter touch opts = [] then dflt else last (List.map_filter touch opts))"
  by (simp add: last_touch_def split: list.splits)

lemma last_touch_snoc:
  "last_touch touch dflt (opts @ [opt]) =
     (case touch opt of None \<Rightarrow> last_touch touch dflt opts | Some v \<Rightarrow> v)"
  by (simp add: last_touch_if map_filter_snoc split: option.splits)

lemma foldl_apply_Option:
  "allowRoot (foldl (\<lambda>c opt. apply_Option opt c) c opts) = last_touch touch_allowRoot (allowRoot c) opts"
  "query (foldl (\<lambda>c opt. apply_Option opt c) c opts) = last_touch touch_query (query c) opts"
  "table (foldl (\<lambda>c opt. apply_Option opt c) c opts) = last_touch touch_table (table c) opts"
  "defaultAttributes (foldl (\<lambda>c opt. apply_Option opt c) c opts) =
     last_touch touch_defaultAttributes (defaultAttributes c) opts"
  "tracer (foldl (\<lambda>c opt. apply_Option opt c) c opts) = last_touch touch_tracer (tracer c) opts"
  "spanOptions (foldl (\<lambda>c opt. apply_Option opt c) c opts) =
     last_touch touch_spanOptions (spanOptions c) opts"
proof (induction opts rule: rev_induct)
  case Nil
  {
    case 1 show ?case by (simp add: last_touch_Nil)
  next
    case 2 show ?case by (simp add: last_touch_Nil)
  next
    case 3 show ?case by (simp add: last_touch_Nil)
  next
    case 4 show ?case by (simp add: last_touch_Nil)
  next
    case 5 show ?case by (simp add: last_touch_Nil)
  next
    case 6 show ?case by (simp add: last_touch_Nil)
  }
next
  case (snoc opt opts)
  {
    case 1 show ?case using snoc by (cases opt) (simp_all add: last_touch_snoc)
  next
    case 2 show ?case using snoc by (cases opt) (simp_all add: last_touch_snoc)
  next
    case 3 show ?case using snoc by (cases opt) (simp_all add: last_touch_snoc)
  next
    case 4 show ?case using snoc by (cases opt) (simp_all add: last_touch_snoc)
  next
    case 5 show ?case using snoc by (cases opt) (simp_all add: last_touch_snoc)
  next
    case 6 show ?case using snoc by (cases opt) (simp_all add: last_touch_snoc)
  }
qed

text \<open>
  Claim C6. Whatever options the caller passes, each field of the settings
  \<open>RegisterCallbacks\<close> builds is what the last option that touches the field gives
  it, and a field no option of the caller touches has its built-in value: no root
  spans, no query, no table, the empty attribute slice (it has no elements in any
  world), the global tracer named \<open>otgorm\<close>, the one start option of span kind
  internal.
\<close>

theorem RegisterCallbacks_settings:
  "allowRoot (fst (RegisterCallbacks db opts)) = last_touch touch_allowRoot False opts
   \<and> query (fst (RegisterCallbacks db opts)) = last_touch touch_query False opts
   \<and> table (fst (RegisterCallbacks db opts)) = last_touch touch_table False opts
   \<and> defaultAttributes (fst (RegisterCallbacks db opts)) =
       last_touch touch_defaultAttributes \<lparr>slice_ptr = 0, slice_len = 0, slice_cap = 0\<rparr> opts
   \<and> elements \<lparr>slice_ptr = 0, slice_len = 0, slice_cap = 0\<rparr> w = []
   \<and> tracer (fst (RegisterCallbacks db opts)) =
       last_touch touch_tracer (Some (otel_Tracer ''otgorm'')) opts
   \<and> spanOptions (fst (RegisterCallbacks db opts)) =
       last_touch touch_spanOptions [WithSpanKind SpanKindInternal] opts"
  by (simp add: RegisterCallbacks_def Let_def foldl_apply_Option elements_def)

theorem RegisterCallbacks_settings_witness:
  "fst (RegisterCallbacks []
          [AllowRoot True, Table True, WithTracer (Some (UserTracer 1)), AllowRoot False])
     = \<lparr>allowRoot = False, query = False, table = True,
        defaultAttributes = \<lparr>slice_ptr = 0, slice_len = 0, slice_cap = 0\<rparr>,
        tracer = Some (UserTracer 1), spanOptions = [WithSpanKind SpanKindInternal]\<rparr>"
  using RegisterCallbacks_settings
    [of "[]" "[AllowRoot True, Table True, WithTracer (Some (UserTracer 1)), AllowRoot False]"
      ex_world]
  by (simp add: last_touch_def List.map_filter_simps)

subsection \<open>The "after" hook\<close>

lemmas ex_defs = ex_growslice_def ex_world_def ex_scope_def ex_settings_def ex_system_def

lemmas hook_defs =
  before_def startTrace_def Start_def after_def endTrace_def scope_Get_def scope_Set_def
  as_Context_def as_Span_def span_call_def append1_def elements_def status_of_def
  Key_String_def TableKey_def QueryKey_def contextScopeKey_def spanScopeKey_def
  RegisterCallbacks_def span_in_scope_def invoke_def

text \<open>
  Claim C7. When the scope holds a span, the "after" hook calls \<open>SetAttributes\<close> on
  it once, with the elements of the default attributes in order, then the
  \<open>gorm.table\<close> attribute if table recording is on, then the \<open>gorm.query\<close>
  attribute if query recording is on; the call is the first thing the hook does to
  the span and \<open>End\<close> the last.
\<close>

theorem after_attributes:
  assumes "span_in_scope scope = Some span"
  shows "attribute_calls span (events (after g c scope w)) =
           attribute_calls span (events w) @
           [elements (defaultAttributes c) w @ table_attribute c scope @ query_attribute c scope]
    \<and> (\<exists>status. events (after g c scope w) =
          events w @
          Called span (SetAttributes
            (elements (defaultAttributes c) w @ table_attribute c scope @ query_attribute c scope))
          # status @ [Called span End])"
proof
  show "attribute_calls span (events (after g c scope w)) =
           attribute_calls span (events w) @
           [elements (defaultAttributes c) w @ table_attribute c scope @ query_attribute c scope]"
    using assms
    by (simp add: after_def endTrace_events attribute_calls_append calls_status_events)
  show "\<exists>status. events (after g c scope w) =
          events w @
          Called span (SetAttributes
            (elements (defaultAttributes c) w @ table_attribute c scope @ query_attribute c scope))
          # status @ [Called span End]"
    using assms by (auto simp: after_def endTrace_events)
qed

theorem after_attributes_witness:
  "span_in_scope (scope_Set ex_scope spanScopeKey (SpanValue (Span 4))) = Some (Span 4)
   \<and> attribute_calls (Span 4)
       (events (after ex_growslice ex_settings
          (scope_Set ex_scope spanScopeKey (SpanValue (Span 4))) (wld ex_system)))
     = [[KeyValue ''env'' (STRING ''prod''), KeyValue ''gorm.table'' (STRING ''users''),
         KeyValue ''gorm.query'' (STRING ''SELECT * FROM users'')]]"
proof -
  let ?scope = "scope_Set ex_scope spanScopeKey (SpanValue (Span 4))"
  have h: "span_in_scope ?scope = Some (Span 4)"
    by (simp add: span_in_scope_def scope_Set_def)
  have e: "elements (defaultAttributes ex_settings) (wld ex_system) =
             [KeyValue ''env'' (STRING ''prod'')]"
    by (simp add: ex_defs elements_def)
  have a: "table_attribute ex_settings ?scope = [KeyValue ''gorm.table'' (STRING ''users'')]"
    "query_attribute ex_settings ?scope = [KeyValue ''gorm.query'' (STRING ''SELECT * FROM users'')]"
    by (simp_all add: table_attribute_def query_attribute_def scope_Set_def ex_defs)
  have n: "attribute_calls (Span 4) (events (wld ex_system)) = []"
    by (simp add: ex_defs)
  show ?thesis
    using h e a n after_attributes [OF h, of ex_growslice ex_settings "wld ex_system"]
    by simp
qed

text \<open>
  Claim C3. When the scope holds a span, the "after" hook sets no status on it if
  the operation has no error; it calls \<open>SetStatus\<close> once, with the code Error and
  the message \<open>not found\<close>, if the error is the record-not-found error (or wraps
  it); and once, with the code Unset and the message \<open>unknown\<close>, for any other
  error.
\<close>

theorem after_status:
  assumes "span_in_scope scope = Some span"
  shows "status_calls span (events (after g c scope w)) =
           status_calls span (events w) @
           (case DB_Error scope of
              None \<Rightarrow> []
            | Some err \<Rightarrow>
                if errors_Is err ErrRecordNotFound then [(codes_Error, ''not found'')]
                else [(codes_Unset, ''unknown'')])"
  using assms
  by (simp add: after_def endTrace_events status_calls_append status_calls_status_events
      status_of_def split: option.splits)

theorem after_status_witness:
  "span_in_scope (scope_Set ex_scope spanScopeKey (SpanValue (Span 0))) = Some (Span 0)
   \<and> status_calls (Span 0)
       (events (after ex_growslice ex_settings
          ((scope_Set ex_scope spanScopeKey (SpanValue (Span 0)))
             \<lparr>DB_Error := Some (WrapError ''find user'' ErrRecordNotFound)\<rparr>) ex_world))
     = [(codes_Error, ''not found'')]
   \<and> status_calls (Span 0)
       (events (after ex_growslice ex_settings
          ((scope_Set ex_scope spanScopeKey (SpanValue (Span 0)))
             \<lparr>DB_Error := Some (OtherError ''connection refused'')\<rparr>) ex_world))
     = [(codes_Unset, ''unknown'')]
   \<and> status_calls (Span 0)
       (events (after ex_growslice ex_settings
          (scope_Set ex_scope spanScopeKey (SpanValue (Span 0))) ex_world))
     = []"
proof -
  let ?scope = "scope_Set ex_scope spanScopeKey (SpanValue (Span 0))"
  have h: "span_in_scope ?scope = Some (Span 0)"
    by (simp add: span_in_scope_def scope_Set_def)
  have h1: "span_in_scope (?scope\<lparr>DB_Error := Some (WrapError ''find user'' ErrRecordNotFound)\<rparr>)
              = Some (Span 0)"
    by (simp add: span_in_scope_def scope_Set_def)
  have h2: "span_in_scope (?scope\<lparr>DB_Error := Some (OtherError ''connection refused'')\<rparr>)
              = Some (Span 0)"
    by (simp add: span_in_scope_def scope_Set_def)
  have e: "DB_Error ?scope = None" "status_calls (Span 0) (events ex_world) = []"
    by (simp_all add: scope_Set_def ex_defs)
  show ?thesis
    using h e
      after_status [OF h1, of ex_growslice ex_settings ex_world]
      after_status [OF h2, of ex_growslice ex_settings ex_world]
      after_status [OF h, of ex_growslice ex_settings ex_world]
    by simp
qed

text \<open>
  Claim C9. An "after" hook calls \<open>End\<close> on the span the scope holds exactly once,
  whatever the operation's error, and on no other span; when the scope holds no span
  it calls \<open>End\<close> on none. Over a "before" hook and the "after" hook that follows it
  on the scope and world the first leaves, no span is ended more than once.
\<close>

theorem after_End_once:
  "End_calls sp (events (after g c scope w)) =
     End_calls sp (events w) + (if span_in_scope scope = Some sp then 1 else 0)
   \<and> (before c scope operation w = Inr (scope1, w1) \<longrightarrow>
        End_calls sp (events (after g c scope1 w1)) \<le> End_calls sp (events w) + 1)"
proof
  show one: "End_calls sp (events (after g c scope w)) =
     End_calls sp (events w) + (if span_in_scope scope = Some sp then 1 else 0)" for scope w
  proof (cases "span_in_scope scope")
    case None
    then show ?thesis by (simp add: after_def endTrace_no_span)
  next
    case (Some span)
    then show ?thesis
      by (simp add: after_def endTrace_events End_calls_append calls_status_events)
  qed
  show "before c scope operation w = Inr (scope1, w1) \<longrightarrow>
        End_calls sp (events (after g c scope1 w1)) \<le> End_calls sp (events w) + 1"
  proof
    assume b: "before c scope operation w = Inr (scope1, w1)"
    have "End_calls sp (events w1) = End_calls sp (events w)"
      using b by (rule before_world)
    then show "End_calls sp (events (after g c scope1 w1)) \<le> End_calls sp (events w) + 1"
      by (simp add: one)
  qed
qed

theorem after_End_once_witness:
  "before ex_settings ex_scope ''query'' ex_world =
     Inr (scope_Set (scope_Set ex_scope spanScopeKey (SpanValue (Span 0))) contextScopeKey
            (CtxValue (ContextWithSpan Background (Span 0))),
          ex_world\<lparr>next_span := 1,
            events := [Started (Span 0) (otel_Tracer ''otgorm'') ''gorm:query''
                         [WithSpanKind SpanKindInternal] Background]\<rparr>)
   \<and> End_calls (Span 0)
       (events (after ex_growslice ex_settings
          (scope_Set (scope_Set ex_scope spanScopeKey (SpanValue (Span 0))) contextScopeKey
            (CtxValue (ContextWithSpan Background (Span 0))))
          (ex_world\<lparr>next_span := 1,
            events := [Started (Span 0) (otel_Tracer ''otgorm'') ''gorm:query''
                         [WithSpanKind SpanKindInternal] Background]\<rparr>))) = 1
   \<and> End_calls (Span 0) (events (after ex_growslice ex_settings ex_scope ex_world)) = 0"
proof -
  let ?scope1 = "scope_Set (scope_Set ex_scope spanScopeKey (SpanValue (Span 0))) contextScopeKey
            (CtxValue (ContextWithSpan Background (Span 0)))"
  let ?w1 = "ex_world\<lparr>next_span := 1,
            events := [Started (Span 0) (otel_Tracer ''otgorm'') ''gorm:query''
                         [WithSpanKind SpanKindInternal] Background]\<rparr>"
  have b: "before ex_settings ex_scope ''query'' ex_world = Inr (?scope1, ?w1)"
    by (simp add: before_def startTrace_starts scope_Get_def as_Context_def ex_defs Let_def)
  have s1: "span_in_scope ?scope1 = Some (Span 0)"
    by (simp add: span_in_scope_def scope_Set_def spanScopeKey_def contextScopeKey_def)
  have s0: "span_in_scope ex_scope = None"
    by (simp add: span_in_scope_def ex_defs)
  have e0: "End_calls (Span 0) (events ex_world) = 0" "End_calls (Span 0) (events ?w1) = 0"
    by (simp_all add: ex_defs)
  show ?thesis
    using b s1 s0 e0
      after_End_once [of "Span 0" ex_growslice ex_settings ?scope1 ?w1 "''query''" ?scope1 ?w1]
      after_End_once [of "Span 0" ex_growslice ex_settings ex_scope ex_world "''query''" ?scope1 ?w1]
    by simp
qed

text \<open>
  Claim C10. When the scope holds, under the span key, a value that is not a span
  (nil, a context, a value of any other type), the "after" hook returns with the
  world as it was: no call on any span, no memory written; and the hook leaves the
  scope as it was. This is what it does when the key is absent.
\<close>

theorem after_wrong_type:
  assumes "Statement_Settings scope spanScopeKey = Some v" and "\<forall>span. v \<noteq> SpanValue span"
  shows "after g c scope w = w \<and> invoke g c afterCreate scope w = Inr (scope, w)
    \<and> after g c (scope\<lparr>Statement_Settings := (Statement_Settings scope)(spanScopeKey := None)\<rparr>) w = w"
proof -
  have "span_in_scope scope = None"
    using assms by (cases v) (simp_all add: span_in_scope_def)
  moreover have "span_in_scope
      (scope\<lparr>Statement_Settings := (Statement_Settings scope)(spanScopeKey := None)\<rparr>) = None"
    by (simp add: span_in_scope_def)
  ultimately show ?thesis
    by (simp add: invoke_def after_def endTrace_no_span)
qed

theorem after_wrong_type_witness:
  "Statement_Settings (scope_Set ex_scope spanScopeKey (OtherValue ''int 7'')) spanScopeKey
     = Some (OtherValue ''int 7'')
   \<and> (\<forall>span. OtherValue ''int 7'' \<noteq> SpanValue span)
   \<and> after ex_growslice ex_settings (scope_Set ex_scope spanScopeKey (OtherValue ''int 7''))
       (wld ex_system) = wld ex_system
   \<and> after ex_growslice ex_settings (scope_Set ex_scope spanScopeKey NilValue) (wld ex_system)
     = wld ex_system"
proof -
  have h: "Statement_Settings (scope_Set ex_scope spanScopeKey v) spanScopeKey = Some v" for v
    by (simp add: scope_Set_def)
  have t: "\<forall>span. OtherValue ''int 7'' \<noteq> SpanValue span" "\<forall>span. NilValue \<noteq> SpanValue span"
    by simp_all
  show ?thesis
    using h t
      after_wrong_type [OF h t(1), of ex_growslice ex_settings "wld ex_system"]
      after_wrong_type [OF h t(2), of ex_growslice ex_settings "wld ex_system"]
    by simp
qed

subsection \<open>The settings in use\<close>

text \<open>
  With the third cell of its array spare, the default attribute slice of the
  concrete handle is appended to in place: after one operation the two spare cells
  hold the operation's table and query attributes.
\<close>

lemma ex_run:
  "map (mem (wld (fst (run ex_growslice [(beforeCreate, 0), (afterCreate, 0)] ex_system))))
     [0, 1, 2] =
     [KeyValue ''env'' (STRING ''prod''), KeyValue ''gorm.table'' (STRING ''users''),
      KeyValue ''gorm.query'' (STRING ''SELECT * FROM users'')]"
  by (simp add: ex_defs hook_defs Let_def)

text \<open>
  Claim C8. No sequence of hook calls, on whatever scopes, changes the settings: every
  field is what it was, and when the elements of the default attribute slice lie in
  allocated memory, they are what they were (an append writes past the slice's last
  element or into a fresh array, never into the elements).
\<close>

theorem run_settings_unchanged:
  "settings (fst (run g calls s)) = settings s
   \<and> (slice_ptr (defaultAttributes (settings s)) + slice_len (defaultAttributes (settings s))
         \<le> brk (wld s) \<longrightarrow>
       elements (defaultAttributes (settings s)) (wld (fst (run g calls s))) =
         elements (defaultAttributes (settings s)) (wld s))"
proof
  show "settings (fst (run g calls s)) = settings s"
  proof (induction calls arbitrary: s)
    case Nil
    show ?case by simp
  next
    case (Cons call calls)
    then show ?case
      by (cases call) (simp split: sum.splits)
  qed
  show "slice_ptr (defaultAttributes (settings s)) + slice_len (defaultAttributes (settings s))
         \<le> brk (wld s) \<longrightarrow>
       elements (defaultAttributes (settings s)) (wld (fst (run g calls s))) =
         elements (defaultAttributes (settings s)) (wld s)"
  proof
    assume "slice_ptr (defaultAttributes (settings s)) + slice_len (defaultAttributes (settings s))
         \<le> brk (wld s)"
    from run_frame [OF this, of g calls]
    show "elements (defaultAttributes (settings s)) (wld (fst (run g calls s))) =
         elements (defaultAttributes (settings s)) (wld s)"
      by (intro elements_cong) simp
  qed
qed

theorem run_settings_unchanged_witness:
  "slice_ptr (defaultAttributes (settings ex_system)) + slice_len (defaultAttributes (settings ex_system))
     \<le> brk (wld ex_system)
   \<and> settings (fst (run ex_growslice [(beforeCreate, 0), (afterCreate, 0)] ex_system)) = ex_settings
   \<and> elements (defaultAttributes ex_settings)
       (wld (fst (run ex_growslice [(beforeCreate, 0), (afterCreate, 0)] ex_system)))
     = [KeyValue ''env'' (STRING ''prod'')]"
proof -
  have h: "slice_ptr (defaultAttributes (settings ex_system))
             + slice_len (defaultAttributes (settings ex_system)) \<le> brk (wld ex_system)"
    by (simp add: ex_defs)
  have e: "elements (defaultAttributes ex_settings) (wld ex_system) =
             [KeyValue ''env'' (STRING ''prod'')]"
    by (simp add: ex_defs elements_def)
  have s: "settings ex_system = ex_settings"
    by (simp add: ex_system_def)
  show ?thesis
    using h e s
      run_settings_unchanged [of ex_growslice "[(beforeCreate, 0), (afterCreate, 0)]" ex_system]
    by simp
qed

subsection \<open>The "before" hook and root spans\<close>

text \<open>
  Claim C1. The code does not behave as the claim says. \<open>SpanFromContext\<close> is never
  nil, so the comparison of \<open>parentSpan\<close> with nil fails and \<open>startTrace\<close> never
  returns early. Whatever \<open>allowRoot\<close> says and whatever context the scope holds, a
  "before" hook with a tracer starts a span, stores it under the span key and stores
  the context that carries it under the context key.
\<close>

theorem before_starts_span:
  assumes "tracer c = Some t"
  shows "before c scope operation w =
           Inr (scope_Set (scope_Set scope spanScopeKey (SpanValue (Span (next_span w))))
                  contextScopeKey
                  (CtxValue (ContextWithSpan (scope_context scope) (Span (next_span w)))),
                w\<lparr>next_span := Suc (next_span w),
                  events := events w @
                    [Started (Span (next_span w)) t (''gorm:'' @ operation) (spanOptions c)
                       (scope_context scope)]\<rparr>)"
proof (cases "Statement_Settings scope contextScopeKey")
  case None
  with assms show ?thesis
    by (simp add: before_def startTrace_starts scope_context_def scope_Get_def as_Context_def)
next
  case (Some v)
  with assms show ?thesis
    by (cases v)
      (simp_all add: before_def startTrace_starts scope_context_def scope_Get_def as_Context_def)
qed

text \<open>
  At the settings \<open>RegisterCallbacks\<close> builds from the one option \<open>Table(true)\<close>,
  root spans are not allowed. On a scope that holds no context the "before" hook of a
  create starts a root span all the same, and the "after" hook attaches the table
  attribute to it and ends it.
\<close>

theorem before_after_root_disallowed:
  "allowRoot (fst (RegisterCallbacks [] [Table True])) = False
   \<and> tracer (fst (RegisterCallbacks [] [Table True])) = Some (otel_Tracer ''otgorm'')
   \<and> Statement_Settings ex_scope contextScopeKey = None
   \<and> (case before (fst (RegisterCallbacks [] [Table True])) ex_scope ''create'' ex_world of
        Inl p \<Rightarrow> False
      | Inr (scope, w) \<Rightarrow>
          Statement_Settings scope spanScopeKey = Some (SpanValue (Span 0))
          \<and> Statement_Settings scope contextScopeKey =
              Some (CtxValue (ContextWithSpan Background (Span 0)))
          \<and> events w =
              [Started (Span 0) (otel_Tracer ''otgorm'') ''gorm:create''
                 [WithSpanKind SpanKindInternal] Background]
          \<and> events (after ex_growslice (fst (RegisterCallbacks [] [Table True])) scope w) =
              [Started (Span 0) (otel_Tracer ''otgorm'') ''gorm:create''
                 [WithSpanKind SpanKindInternal] Background,
               Called (Span 0) (SetAttributes [KeyValue ''gorm.table'' (STRING ''users'')]),
               Called (Span 0) End])"
proof -
  let ?c = "fst (RegisterCallbacks [] [Table True])"
  have t: "tracer ?c = Some (otel_Tracer ''otgorm'')"
    by (simp add: RegisterCallbacks_def)
  have x: "scope_context ex_scope = Background"
    by (simp add: scope_context_def ex_defs)
  have b: "before ?c ex_scope ''create'' ex_world =
      Inr (scope_Set (scope_Set ex_scope spanScopeKey (SpanValue (Span 0)))
             contextScopeKey (CtxValue (ContextWithSpan Background (Span 0))),
           ex_world\<lparr>next_span := 1,
             events := [Started (Span 0) (otel_Tracer ''otgorm'') ''gorm:create''
                          [WithSpanKind SpanKindInternal] Background]\<rparr>)"
    using before_starts_span [OF t, of ex_scope "''create''" ex_world] x
    by (simp add: ex_defs RegisterCallbacks_def)
  have a: "allowRoot ?c = False" "Statement_Settings ex_scope contextScopeKey = None"
    by (simp_all add: RegisterCallbacks_def ex_defs)
  have e: "events (after ex_growslice ?c
      (scope_Set (scope_Set ex_scope spanScopeKey (SpanValue (Span 0)))
             contextScopeKey (CtxValue (ContextWithSpan Background (Span 0))))
      (ex_world\<lparr>next_span := 1,
             events := [Started (Span 0) (otel_Tracer ''otgorm'') ''gorm:create''
                          [WithSpanKind SpanKindInternal] Background]\<rparr>)) =
     [Started (Span 0) (otel_Tracer ''otgorm'') ''gorm:create''
        [WithSpanKind SpanKindInternal] Background,
      Called (Span 0) (SetAttributes [KeyValue ''gorm.table'' (STRING ''users'')]),
      Called (Span 0) End]"
    by (simp add: hook_defs ex_defs Let_def)
  show ?thesis
    using a t b e by (simp add: scope_Set_def spanScopeKey_def contextScopeKey_def)
qed

end
